theory Spec2Isabelle
  imports Main "HOL-Library.AList"
begin

section \<open>Text\<close>

text \<open>
  The adapter of \<^verbatim>\<open>scripts/release/adapters/ada.py\<close> works on Python \<^verbatim>\<open>str\<close> values.
  A text is a list of characters; a character stands for a code point below 256. The system
  is a POSIX one: paths are written with \<^verbatim>\<open>/\<close> and \<^verbatim>\<open>os.linesep\<close> is the line feed. A file holds
  the characters that its bytes decode to; a file whose bytes are no UTF-8 is one that
  reading raises on.
\<close>

abbreviation nl :: char where "nl \<equiv> CHR 0x0A"
abbreviation cr :: char where "cr \<equiv> CHR 0x0D"
abbreviation dquote :: char where "dquote \<equiv> CHR 0x22"
abbreviation backslash :: char where "backslash \<equiv> CHR 0x5C"

text \<open>
  \<^verbatim>\<open>\s\<close> of a \<^verbatim>\<open>str\<close> pattern: the characters for which \<^verbatim>\<open>str.isspace()\<close> holds. Below 256
  these are TAB, LF, VT, FF, CR, the separators FS, GS, RS, US, the blank, NEL and the
  no-break space.
\<close>

definition is_space :: "char \<Rightarrow> bool" where
  "is_space c = ((of_char c :: nat) \<in> {9, 10, 11, 12, 13, 28, 29, 30, 31, 32, 133, 160})"

text \<open>
  Text mode with \<^verbatim>\<open>newline=None\<close>, which \<^verbatim>\<open>Path.read_text\<close> opens the file in: on reading,
  the line ends CR LF and CR become LF. On writing, LF becomes \<^verbatim>\<open>os.linesep\<close>, which is LF again.
\<close>

fun universal_newlines :: "string \<Rightarrow> string" where
  "universal_newlines [] = []"
| "universal_newlines [c] = [if c = cr then nl else c]"
| "universal_newlines (c # d # r) =
     (if c = cr \<and> d = nl then nl # universal_newlines r
      else if c = cr then nl # universal_newlines (d # r)
      else c # universal_newlines (d # r))"

text \<open>\<^verbatim>\<open>sep.join(xs)\<close>.\<close>

fun join :: "string \<Rightarrow> string list \<Rightarrow> string" where
  "join sep [] = []"
| "join sep [x] = x"
| "join sep (x # y # ys) = x @ sep @ join sep (y # ys)"

section \<open>The three regular expressions\<close>

text \<open>
  The source uses \<^verbatim>\<open>^KEY\s*=\s*"([^"]+)"\<close> with \<^verbatim>\<open>re.search\<close> (for the keys \<^verbatim>\<open>name\<close>,
  \<^verbatim>\<open>website\<close> and \<^verbatim>\<open>version\<close>) and \<^verbatim>\<open>^(\s*version\s*=\s*")[^"]+(")\<close> with \<^verbatim>\<open>re.sub\<close>, both
  under \<^verbatim>\<open>re.MULTILINE\<close>.

  \<open>match_lit\<close> matches a literal at the head of the text and returns what follows it.
\<close>

fun match_lit :: "string \<Rightarrow> string \<Rightarrow> string option" where
  "match_lit [] s = Some s"
| "match_lit (k # ks) [] = None"
| "match_lit (k # ks) (c # cs) = (if k = c then match_lit ks cs else None)"

text \<open>
  \<open>match_field key s\<close> matches \<^verbatim>\<open>KEY\s*=\s*"[^"]+"\<close> at the head of \<open>s\<close>. Each greedy
  \<^verbatim>\<open>\s*\<close> is followed by a character that is no white space and \<^verbatim>\<open>[^"]+\<close> by a quote, so the
  longest run is the only one that can succeed and backtracking never finds another match.
  Both \<^verbatim>\<open>\s\<close> and \<^verbatim>\<open>[^"]\<close> accept a line feed. The result is the text up to and including the
  opening quote, the value (group 1 of the search patterns), and the text after the closing
  quote.
\<close>

definition match_field :: "string \<Rightarrow> string \<Rightarrow> (string \<times> string \<times> string) option" where
  "match_field key s =
     (case match_lit key s of
        None \<Rightarrow> None
      | Some s1 \<Rightarrow>
          (case dropWhile is_space s1 of
             [] \<Rightarrow> None
           | c2 # s2 \<Rightarrow>
               if c2 \<noteq> CHR ''='' then None
               else (case dropWhile is_space s2 of
                       [] \<Rightarrow> None
                     | c3 # s3 \<Rightarrow>
                         if c3 \<noteq> dquote then None
                         else let v = takeWhile (\<lambda>c. c \<noteq> dquote) s3;
                                  r = dropWhile (\<lambda>c. c \<noteq> dquote) s3
                              in if v = [] \<or> r = [] then None
                                 else Some (key @ takeWhile is_space s1 @ [CHR ''='']
                                              @ takeWhile is_space s2 @ [dquote],
                                            v, tl r))))"

text \<open>
  \<open>match_update s\<close> matches \<^verbatim>\<open>(\s*version\s*=\s*")[^"]+(")\<close> at the head of \<open>s\<close>: group 1,
  the value, and the text after group 2 (the closing quote).
\<close>

definition match_update :: "string \<Rightarrow> (string \<times> string \<times> string) option" where
  "match_update s =
     (case match_field ''version'' (dropWhile is_space s) of
        None \<Rightarrow> None
      | Some (g, v, r) \<Rightarrow> Some (takeWhile is_space s @ g, v, r))"

text \<open>
  \<^verbatim>\<open>re.search(r'^KEY\s*=\s*"([^"]+)"', content, re.MULTILINE)\<close>, then \<^verbatim>\<open>.group(1)\<close>: the
  positions are tried from the left; \<^verbatim>\<open>^\<close> holds at the start of the text and after each
  line feed (the flag \<open>bol\<close>).
\<close>

fun search_from :: "string \<Rightarrow> bool \<Rightarrow> string \<Rightarrow> string option" where
  "search_from key bol [] = None"
| "search_from key bol (c # cs) =
     (case (if bol then match_field key (c # cs) else None) of
        Some (g, v, r) \<Rightarrow> Some v
      | None \<Rightarrow> search_from key (c = nl) cs)"

definition re_search :: "string \<Rightarrow> string \<Rightarrow> string option" where
  "re_search key content = search_from key True content"

lemma match_lit_length: "match_lit k s = Some r \<Longrightarrow> length r \<le> length s"
  by (induction k s rule: match_lit.induct) (auto split: if_splits)

lemma length_dropWhile_Cons:
  "dropWhile P s = c # r \<Longrightarrow> length r < length s"
  using length_dropWhile_le [of P s] by simp

lemma match_field_length:
  assumes "match_field key s = Some (g, v, r)"
  shows "length r < length s"
proof -
  from assms obtain s1 s2 s3 where
    s1: "match_lit key s = Some s1" and
    s2: "dropWhile is_space s1 = CHR ''='' # s2" and
    s3: "dropWhile is_space s2 = dquote # s3" and
    r: "r = tl (dropWhile (\<lambda>c. c \<noteq> dquote) s3)"
    unfolding match_field_def
    by (auto split: option.splits list.splits if_splits simp: Let_def)
  have "length s1 \<le> length s" using s1 by (rule match_lit_length)
  moreover have "length s2 < length s1" using s2 by (rule length_dropWhile_Cons)
  moreover have "length s3 < length s2" using s3 by (rule length_dropWhile_Cons)
  moreover have "length r \<le> length s3"
    using length_dropWhile_le [of "\<lambda>c. c \<noteq> dquote" s3] by (simp add: r)
  ultimately show ?thesis by linarith
qed

lemma match_update_length: "match_update s = Some (g, v, r) \<Longrightarrow> length r < length s"
  unfolding match_update_def
  using length_dropWhile_le [of is_space s]
  by (auto split: option.splits dest!: match_field_length)

text \<open>
  \<^verbatim>\<open>re.sub(r'^(\s*version\s*=\s*")[^"]+(")', template, content, flags=re.MULTILINE)\<close>: every
  match found from the left, none overlapping another, is replaced by the expansion
  \<open>repl g1 v g2\<close> of the template; the search goes on behind the match, where \<^verbatim>\<open>^\<close> does not
  hold, the character before being the closing quote.
\<close>

function sub_from :: "(string \<Rightarrow> string \<Rightarrow> string \<Rightarrow> string) \<Rightarrow> bool \<Rightarrow> string \<Rightarrow> string" where
  "sub_from repl bol [] = []"
| "sub_from repl bol (c # cs) =
     (case (if bol then match_update (c # cs) else None) of
        Some (g, v, r) \<Rightarrow> repl g v [dquote] @ sub_from repl False r
      | None \<Rightarrow> c # sub_from repl (c = nl) cs)"
  by pat_completeness auto
termination
  by (relation "measure (\<lambda>(repl, bol, s). length s)")
     (auto split: if_splits dest: match_update_length)

section \<open>Exceptions and the replacement template\<close>

text \<open>
  An exception is a value that carries its message; \<open>exn_str\<close> is what \<^verbatim>\<open>{e}\<close> prints of
  it. \<open>PermissionError\<close> is apart because \<^verbatim>\<open>pathlib\<close> treats it apart; \<open>OSError\<close> stands for
  the other exceptions of the file system and of the codec (a directory in the place of a
  file, a full disk, bytes that are no UTF-8), \<open>ReError\<close> for \<^verbatim>\<open>re.error\<close>.
\<close>

datatype exn = PermissionError string | OSError string | ReError string

fun exn_str :: "exn \<Rightarrow> string" where
  "exn_str (PermissionError m) = m"
| "exn_str (OSError m) = m"
| "exn_str (ReError m) = m"

text \<open>
  The template of \<^verbatim>\<open>re.sub\<close> is \<^verbatim>\<open>rf'\g<1>{config.version}\g<2>'\<close>. A version without a
  backslash stands for itself between the two groups. A version with a backslash is read by
  Python's template parser as escapes and group references; that parser belongs to the
  standard library and is a parameter \<open>esc\<close> here: it yields the message of the
  \<^verbatim>\<open>re.error\<close> it raises, or the expansion as a function of group 1, the old value and
  group 2. The template is parsed before the text is searched.
\<close>

type_synonym repl = "string \<Rightarrow> string \<Rightarrow> string \<Rightarrow> string"
type_synonym escapes = "string \<Rightarrow> string + repl"

definition version_template :: "escapes \<Rightarrow> string \<Rightarrow> string + repl" where
  "version_template esc v =
     (if backslash \<in> set v then esc v else Inr (\<lambda>g1 old g2. g1 @ v @ g2))"

definition re_sub :: "escapes \<Rightarrow> string \<Rightarrow> string \<Rightarrow> exn + string" where
  "re_sub esc v content =
     (case version_template esc v of
        Inl msg \<Rightarrow> Inl (ReError msg)
      | Inr repl \<Rightarrow> Inr (sub_from repl True content))"

section \<open>Paths, the file tree and the configuration\<close>

text \<open>
  A \<^verbatim>\<open>pathlib\<close> path: the anchor (empty for a relative path, \<^verbatim>\<open>/\<close> for an absolute one) and
  the names after it.
\<close>

record path =
  anchor :: string
  names :: "string list"

definition path_join :: "path \<Rightarrow> string list \<Rightarrow> path" where
  "path_join p rel = p\<lparr>names := names p @ rel\<rparr>"

definition path_name :: "path \<Rightarrow> string" where
  "path_name p = (if names p = [] then [] else last (names p))"

definition path_parent :: "path \<Rightarrow> path" where
  "path_parent p = p\<lparr>names := butlast (names p)\<rparr>"

definition path_str :: "path \<Rightarrow> string" where
  "path_str p =
     (if names p = [] then (if anchor p = [] then ''.'' else anchor p)
      else anchor p @ join ''/'' (names p))"

text \<open>
  The tree below \<^verbatim>\<open>config.project_root\<close>: the entries by their path relative to the root.
  \<open>Dir\<close> is a directory. \<open>File rerr content werr\<close> is a file with its characters; \<open>rerr\<close> is
  the exception that reading it raises, if any; \<open>werr\<close> is the exception that writing it
  raises, if any, with the characters that the failed write leaves in the file
  (\<^verbatim>\<open>write_text\<close> opens with mode \<^verbatim>\<open>w\<close>, which truncates the file before anything is written).
\<close>

datatype node =
  Dir
| File (rerr: "exn option") (content: string) (werr: "(exn \<times> string) option")

type_synonym tree = "(string list \<times> node) list"

text \<open>\<open>exists\<close> is the test for an entry: \<^verbatim>\<open>Path.exists()\<close> where \<^verbatim>\<open>stat\<close> does not raise.\<close>

definition exists :: "tree \<Rightarrow> string list \<Rightarrow> bool" where
  "exists t p = (map_of t p \<noteq> None)"

text \<open>
  What the process may not do in the tree. \<open>stat_error a p\<close> is the message of the
  \<^verbatim>\<open>PermissionError\<close> that \<^verbatim>\<open>stat\<close> raises on the path \<open>p\<close>, if it raises (as below a directory
  that cannot be searched); \<open>listable a d\<close> says that the directory \<open>d\<close> can be listed
  (\<^verbatim>\<open>scandir\<close> raises \<^verbatim>\<open>PermissionError\<close> on a directory without read permission, although
  its entries can be opened by name). Of the errors of \<^verbatim>\<open>stat\<close> that \<^verbatim>\<open>Path.exists()\<close> lets
  through, the model has this one. \<open>detect\<close>, \<open>generate_version_file\<close> and the four command
  steps are modelled where nothing is denied, with \<open>exists\<close>; \<open>load_project_info\<close>,
  \<open>update_version\<close> and \<open>sync_versions\<close> are modelled with what is denied as a parameter.
\<close>

record access =
  stat_error :: "string list \<Rightarrow> string option"
  listable :: "string list \<Rightarrow> bool"

definition full_access :: access where
  "full_access = \<lparr>stat_error = (\<lambda>p. None), listable = (\<lambda>d. True)\<rparr>"

text \<open>
  \<^verbatim>\<open>Path.exists()\<close>: it returns \<open>False\<close> where \<^verbatim>\<open>stat\<close> finds nothing and raises what \<^verbatim>\<open>stat\<close>
  raises otherwise.
\<close>

definition path_exists :: "access \<Rightarrow> tree \<Rightarrow> string list \<Rightarrow> exn + bool" where
  "path_exists a t p =
     (case stat_error a p of
        Some m \<Rightarrow> Inl (PermissionError m)
      | None \<Rightarrow> Inr (exists t p))"

text \<open>
  \<^verbatim>\<open>str(e)\<close> of an \<^verbatim>\<open>OSError\<close> of \<^verbatim>\<open>open\<close> ends in the \<^verbatim>\<open>repr\<close> of the file name, which for a
  name without quotes, backslashes and control characters is the name in single quotes.
\<close>

definition os_error :: "string \<Rightarrow> path \<Rightarrow> string list \<Rightarrow> exn" where
  "os_error what root p =
     OSError (what @ '': '' @ [CHR 0x27] @ path_str (path_join root p) @ [CHR 0x27])"

text \<open>
  \<^verbatim>\<open>(root / p).read_text(encoding='utf-8')\<close> and \<^verbatim>\<open>(root / p).write_text(c, encoding='utf-8')\<close>.
  Reading translates the line ends; a failed write yields the exception and the tree that
  it leaves.
\<close>

definition read_text :: "path \<Rightarrow> tree \<Rightarrow> string list \<Rightarrow> exn + string" where
  "read_text root t p =
     (case map_of t p of
        None \<Rightarrow> Inl (os_error ''[Errno 2] No such file or directory'' root p)
      | Some Dir \<Rightarrow> Inl (os_error ''[Errno 21] Is a directory'' root p)
      | Some (File re c we) \<Rightarrow>
          (case re of Some e \<Rightarrow> Inl e | None \<Rightarrow> Inr (universal_newlines c)))"

definition write_text :: "path \<Rightarrow> tree \<Rightarrow> string list \<Rightarrow> string \<Rightarrow> exn \<times> tree + tree" where
  "write_text root t p c =
     (case map_of t p of
        None \<Rightarrow> Inr (AList.update p (File None c None) t)
      | Some Dir \<Rightarrow> Inl (os_error ''[Errno 21] Is a directory'' root p, t)
      | Some (File re old we) \<Rightarrow>
          (case we of
             Some (e, left) \<Rightarrow> Inl (e, AList.update p (File re left we) t)
           | None \<Rightarrow> Inr (AList.update p (File re c we) t)))"

text \<open>\<^verbatim>\<open>str.endswith\<close>, and the patterns of \<^verbatim>\<open>glob\<close> in \<open>detect\<close>.\<close>

definition ends_with :: "string \<Rightarrow> string \<Rightarrow> bool" where
  "ends_with suf s = (length suf \<le> length s \<and> drop (length s - length suf) s = suf)"

definition glob_root :: "string \<Rightarrow> tree \<Rightarrow> string list list" where
  "glob_root ext t = filter (\<lambda>p. length p = 1 \<and> ends_with ext (last p)) (map fst t)"

definition glob_rec :: "string \<Rightarrow> tree \<Rightarrow> string list list" where
  "glob_rec ext t = filter (\<lambda>p. p \<noteq> [] \<and> ends_with ext (last p)) (map fst t)"

text \<open>
  \<^verbatim>\<open>root.rglob(name)\<close> for a plain name. \<^verbatim>\<open>pathlib\<close> walks the directories from the root down,
  finding those of a directory by \<^verbatim>\<open>scandir\<close>, and in every directory it arrives at asks
  whether the entry \<open>name\<close> exists. It swallows each \<^verbatim>\<open>PermissionError\<close> on the way: below a
  directory that cannot be listed it finds no further directories, and an entry that
  \<^verbatim>\<open>stat\<close> raises on is left out. \<open>reached a t d\<close> says that the walk arrives at the
  directory \<open>d\<close>: it is the root, or a directory all of whose ancestors, the root among
  them, are directories that can be listed.
\<close>

definition reached :: "access \<Rightarrow> tree \<Rightarrow> string list \<Rightarrow> bool" where
  "reached a t d =
     (d = [] \<or>
      (map_of t d = Some Dir \<and> listable a [] \<and>
       (\<forall>k \<in> set [1..<length d]. map_of t (take k d) = Some Dir \<and> listable a (take k d))))"

definition rglob :: "string \<Rightarrow> access \<Rightarrow> tree \<Rightarrow> string list list" where
  "rglob name a t =
     filter (\<lambda>p. p \<noteq> [] \<and> last p = name \<and> reached a t (butlast p) \<and> stat_error a p = None)
       (map fst t)"

text \<open>
  \<^verbatim>\<open>ReleaseConfig\<close>, and the world a method runs in: the tree, the lines printed so far and
  the commands run so far.
\<close>

record config =
  project_root :: path
  version :: string
  project_name :: string

record world =
  files :: tree
  out :: "string list"
  calls :: "string list list"

definition print :: "string \<Rightarrow> world \<Rightarrow> world" where
  "print line w = w\<lparr>out := out w @ [line]\<rparr>"

text \<open>
  Modelled from the spec: \<^verbatim>\<open>run_command\<close> of \<^verbatim>\<open>BaseReleaseAdapter\<close>, whose file is not among the
  sources. The spec has it execute an argument list in a working directory, optionally
  capturing output, and return a result object or a failure indicator. What a command does
  is a parameter \<open>rc\<close>: given the argument list, the flag \<^verbatim>\<open>capture_output\<close> and the world it
  is called in, it yields \<^verbatim>\<open>None\<close> or an object with a truth value, the tree that the
  command leaves and the lines printed meanwhile. Where the source does not pass
  \<^verbatim>\<open>capture_output\<close>, the flag is \<open>False\<close> here.
\<close>

type_synonym cmd_result = "bool option"
type_synonym runner = "string list \<Rightarrow> bool \<Rightarrow> world \<Rightarrow> cmd_result \<times> tree \<times> string list"

definition run_command :: "runner \<Rightarrow> string list \<Rightarrow> bool \<Rightarrow> world \<Rightarrow> cmd_result \<times> world" where
  "run_command rc cmd capture w =
     (let (r, t', printed) = rc cmd capture w
      in (r, w\<lparr>files := t', out := out w @ printed, calls := calls w @ [cmd]\<rparr>))"

definition truthy :: "cmd_result \<Rightarrow> bool" where
  "truthy r = (case r of None \<Rightarrow> False | Some b \<Rightarrow> b)"

section \<open>The adapter\<close>

subsection \<open>detect\<close>

definition detect :: "tree \<Rightarrow> bool" where
  "detect t =
     (if exists t [''alire.toml''] then True
      else if glob_root ''.gpr'' t \<noteq> [] then True
      else if glob_rec ''.gpr'' t \<noteq> [] then True
      else if glob_rec ''.ads'' t \<noteq> [] \<or> glob_rec ''.adb'' t \<noteq> [] then True
      else False)"

subsection \<open>load_project_info\<close>

text \<open>
  The method has no handler: an exception of \<^verbatim>\<open>exists\<close> or of \<^verbatim>\<open>read_text\<close> leaves it.
\<close>

definition load_project_info :: "access \<Rightarrow> config \<Rightarrow> tree \<Rightarrow> exn + (string \<times> string)" where
  "load_project_info a cfg t =
     (case path_exists a t [''alire.toml''] of
        Inl e \<Rightarrow> Inl e
      | Inr True \<Rightarrow>
          (case read_text (project_root cfg) t [''alire.toml''] of
             Inl e \<Rightarrow> Inl e
           | Inr text \<Rightarrow>
               let pname = (case re_search ''name'' text of Some n \<Rightarrow> n | None \<Rightarrow> []);
                   purl = (case re_search ''website'' text of
                             Some url \<Rightarrow>
                               if ends_with ''.git'' url then take (length url - 4) url else url
                           | None \<Rightarrow> [])
               in Inr (if pname = [] then path_name (project_root cfg) else pname, purl))
      | Inr False \<Rightarrow> Inr (path_name (project_root cfg), []))"

subsection \<open>update_version\<close>

text \<open>
  The body of the \<^verbatim>\<open>try\<close>: \<open>Inl\<close> is an exception raised in it, with the world at that
  moment.
\<close>

definition update_version_try :: "escapes \<Rightarrow> config \<Rightarrow> world \<Rightarrow> exn \<times> world + bool \<times> world" where
  "update_version_try esc cfg w =
     (case read_text (project_root cfg) (files w) [''alire.toml''] of
        Inl e \<Rightarrow> Inl (e, w)
      | Inr text \<Rightarrow>
          if re_search ''version'' text = Some (version cfg) then
            Inr (True, print (''  Root alire.toml already has version = '' @ [dquote]
                                @ version cfg @ [dquote]) w)
          else
            (case re_sub esc (version cfg) text of
               Inl e \<Rightarrow> Inl (e, w)
             | Inr new \<Rightarrow>
                 if new = text then
                   Inr (False, print (''  Error: Version field not found in ''
                                        @ path_str (path_join (project_root cfg) [''alire.toml''])) w)
                 else
                   (case write_text (project_root cfg) (files w) [''alire.toml''] new of
                      Inl (e, t') \<Rightarrow> Inl (e, w\<lparr>files := t'\<rparr>)
                    | Inr t' \<Rightarrow>
                        Inr (True, print (''  Updated root alire.toml: version = '' @ [dquote]
                                            @ version cfg @ [dquote]) (w\<lparr>files := t'\<rparr>)))))"

text \<open>
  The method: \<^verbatim>\<open>root_toml.exists()\<close> comes before the \<^verbatim>\<open>try\<close>, so what it raises leaves the
  method (\<open>Inl\<close>); what the body raises is caught.
\<close>

definition update_version ::
  "escapes \<Rightarrow> access \<Rightarrow> config \<Rightarrow> world \<Rightarrow> exn \<times> world + bool \<times> world" where
  "update_version esc a cfg w =
     (case path_exists a (files w) [''alire.toml''] of
        Inl e \<Rightarrow> Inl (e, w)
      | Inr False \<Rightarrow> Inr (False, print ''  alire.toml not found'' w)
      | Inr True \<Rightarrow>
          (case update_version_try esc cfg w of
             Inr r \<Rightarrow> Inr r
           | Inl (e, w') \<Rightarrow>
               Inr (False, print (''Error updating root alire.toml: '' @ exn_str e) w')))"

subsection \<open>sync_versions\<close>

definition sync_file_try :: "escapes \<Rightarrow> config \<Rightarrow> string list \<Rightarrow> world \<Rightarrow> exn \<times> world + world" where
  "sync_file_try esc cfg rel w =
     (case read_text (project_root cfg) (files w) rel of
        Inl e \<Rightarrow> Inl (e, w)
      | Inr text \<Rightarrow>
          (case re_sub esc (version cfg) text of
             Inl e \<Rightarrow> Inl (e, w)
           | Inr new \<Rightarrow>
               if new \<noteq> text then
                 (case write_text (project_root cfg) (files w) rel new of
                    Inl (e, t') \<Rightarrow> Inl (e, w\<lparr>files := t'\<rparr>)
                  | Inr t' \<Rightarrow>
                      Inr (print (''  Updated '' @ path_str \<lparr>anchor = [], names = rel\<rparr>)
                             (w\<lparr>files := t'\<rparr>)))
               else Inr w))"

text \<open>One turn of the loop over \<^verbatim>\<open>rglob('alire.toml')\<close>.\<close>

definition sync_file :: "escapes \<Rightarrow> config \<Rightarrow> string list \<Rightarrow> world \<Rightarrow> world" where
  "sync_file esc cfg rel w =
     (if path_parent (path_join (project_root cfg) rel) = project_root cfg then w
      else (case sync_file_try esc cfg rel w of
              Inr w' \<Rightarrow> w'
            | Inl (e, w') \<Rightarrow>
                print (''  Warning: Could not update ''
                         @ path_str (path_join (project_root cfg) rel) @ '': '' @ exn_str e) w'))"

text \<open>
  The method: the two calls of \<^verbatim>\<open>sync_script.exists()\<close> and the loop are outside every
  \<^verbatim>\<open>try\<close>; the walk of \<^verbatim>\<open>rglob\<close> does not raise in this model.
\<close>

definition sync_versions ::
  "runner \<Rightarrow> string \<Rightarrow> escapes \<Rightarrow> access \<Rightarrow> config \<Rightarrow> world \<Rightarrow> exn \<times> world + bool \<times> world" where
  "sync_versions rc exe esc a cfg w =
     (let w0 = print ''Syncing versions across all layer alire.toml files...'' w
      in case path_exists a (files w0) [''scripts'', ''release'', ''sync_versions.py''] of
           Inl e \<Rightarrow> Inl (e, w0)
         | Inr there \<Rightarrow>
             let sync_script = (if \<not> there then [''scripts'', ''sync_versions.py'']
                                else [''scripts'', ''release'', ''sync_versions.py''])
             in (case path_exists a (files w0) sync_script of
                   Inl e \<Rightarrow> Inl (e, w0)
                 | Inr True \<Rightarrow>
                     (let (result, w1) =
                            run_command rc
                              [exe, path_str (path_join (project_root cfg) sync_script),
                               version cfg] True w0
                      in Inr (result \<noteq> None, w1))
                 | Inr False \<Rightarrow>
                     Inr (True, fold (sync_file esc cfg) (rglob ''alire.toml'' a (files w0)) w0)))"

subsection \<open>generate_version_file\<close>

text \<open>
  \<^verbatim>\<open>str.lower\<close> and \<^verbatim>\<open>str.capitalize\<close>. The letters below 256 are A to Z, a to z and those
  of Latin-1. \<^verbatim>\<open>capitalize\<close> puts the first character into title case: the sharp s (223)
  becomes \<^verbatim>\<open>Ss\<close>. The title case of the micro sign (181) and of y with diaeresis (255) are
  code points above 255, which this model of text does not have; it leaves the two
  characters as they are, so a name that starts a part with one of them is outside it.
\<close>

definition lower_char :: "char \<Rightarrow> char" where
  "lower_char c =
     (let n = (of_char c :: nat)
      in if (65 \<le> n \<and> n \<le> 90) \<or> (192 \<le> n \<and> n \<le> 222 \<and> n \<noteq> 215)
         then char_of (n + 32) else c)"

definition upper_char :: "char \<Rightarrow> char" where
  "upper_char c =
     (let n = (of_char c :: nat)
      in if (97 \<le> n \<and> n \<le> 122) \<or> (224 \<le> n \<and> n \<le> 254 \<and> n \<noteq> 247)
         then char_of (n - 32) else c)"

definition lower :: "string \<Rightarrow> string" where
  "lower s = map lower_char s"

definition title_char :: "char \<Rightarrow> string" where
  "title_char c = (if (of_char c :: nat) = 223 then ''Ss'' else [upper_char c])"

fun capitalize :: "string \<Rightarrow> string" where
  "capitalize [] = []"
| "capitalize (c # cs) = title_char c @ lower cs"

text \<open>\<^verbatim>\<open>s.split(d)\<close> for a separator of one character.\<close>

fun split :: "char \<Rightarrow> string \<Rightarrow> string list" where
  "split d [] = [[]]"
| "split d (c # cs) =
     (if c = d then [] # split d cs
      else (case split d cs of [] \<Rightarrow> [[c]] | p # ps \<Rightarrow> (c # p) # ps))"

text \<open>The name of the Ada package, as the method computes it from \<^verbatim>\<open>config.project_name\<close>.\<close>

definition package_name :: "string \<Rightarrow> string" where
  "package_name pname =
     (let project_name = lower pname
      in if project_name = ''hybrid_app_ada'' then ''Hybrid_App_Ada''
         else join ''_'' (map capitalize (split CHR ''_'' project_name)))"

definition generate_version_file :: "runner \<Rightarrow> string \<Rightarrow> config \<Rightarrow> world \<Rightarrow> bool \<times> world" where
  "generate_version_file rc exe cfg w =
     (let gen_script = (if \<not> exists (files w) [''scripts'', ''release'', ''generate_version.py'']
                        then [''scripts'', ''generate_version.py'']
                        else [''scripts'', ''release'', ''generate_version.py''])
      in if \<not> exists (files w) gen_script then
           (True, print ''  generate_version.py not found, skipping version package generation'' w)
         else
           (let file_name = lower (project_name cfg) @ ''-version.ads'';
                file_path = ''shared/src/'' @ file_name;
                w1 = print (''Generating '' @ package_name (project_name cfg)
                              @ ''.Version package...'') w;
                (result, w2) =
                  run_command rc [exe, path_str (path_join (project_root cfg) gen_script),
                                  ''alire.toml'', file_path] True w1
            in (result \<noteq> None,
                if truthy result then print (''  Generated '' @ file_path) w2 else w2)))"

subsection \<open>run_build, run_tests, run_format, cleanup_temp_files\<close>

definition run_build :: "runner \<Rightarrow> config \<Rightarrow> world \<Rightarrow> bool \<times> world" where
  "run_build rc cfg w =
     (let w0 = print ''Running Ada build...'' w;
          (made, w3) =
            (if exists (files w0) [''Makefile''] then
               (let (r1, w1) = run_command rc [''make'', ''clean''] True w0;
                    (result, w2) = run_command rc [''make'', ''build''] False w1
                in (truthy result, w2))
             else (False, w0))
      in if made then (True, print ''  Build successful (via make)'' w3)
         else (let (result, w4) = run_command rc [''alr'', ''build''] False w3
               in if truthy result then (True, print ''  Build successful'' w4)
                  else (False, print ''  Build failed'' w4)))"

definition run_tests :: "runner \<Rightarrow> config \<Rightarrow> world \<Rightarrow> bool \<times> world" where
  "run_tests rc cfg w =
     (let w0 = print ''Running Ada tests...'' w;
          (done, w2) =
            (if exists (files w0) [''Makefile''] then
               (let (result, w1) = run_command rc [''make'', ''test''] True w0
                in (result \<noteq> None, w1))
             else (False, w0))
      in if done then (True, print ''  All tests passed (via make)'' w2)
         else (True, print ''  No test target found'' w2))"

definition run_format :: "runner \<Rightarrow> config \<Rightarrow> world \<Rightarrow> bool \<times> world" where
  "run_format rc cfg w =
     (let w0 = print ''Formatting Ada code...'' w;
          (done, w2) =
            (if exists (files w0) [''Makefile''] then
               (let (result, w1) = run_command rc [''make'', ''format''] True w0
                in (result \<noteq> None, w1))
             else (False, w0))
      in if done then (True, print ''  Code formatted (via make)'' w2)
         else (True, print ''  Format target not available (gnatpp/adafmt)'' w2))"

definition cleanup_temp_files :: "runner \<Rightarrow> string \<Rightarrow> config \<Rightarrow> world \<Rightarrow> bool \<times> world" where
  "cleanup_temp_files rc exe cfg w =
     (let w0 = print ''Cleaning up temporary files...'' w;
          (done1, w2) =
            (if exists (files w0) [''scripts'', ''cleanup_temp_files.py''] then
               (let (result, w1) =
                      run_command rc [exe, path_str (path_join (project_root cfg)
                                                       [''scripts'', ''cleanup_temp_files.py''])]
                        True w0
                in (result \<noteq> None, w1))
             else (False, w0))
      in if done1 then (True, print ''  Cleaned (via cleanup script)'' w2)
         else
           (let (done2, w4) =
                  (if exists (files w2) [''Makefile''] then
                     (let (result, w3) = run_command rc [''make'', ''clean''] True w2
                      in (result \<noteq> None, w3))
                   else (False, w2))
            in if done2 then (True, print ''  Cleaned (via make)'' w4)
               else (True, print ''  Cleaned'' w4)))"

section \<open>Notions of the claims\<close>



text \<open>
  The lines of a text are the parts between its line feeds: the text is \<open>join [nl] ls\<close>
  for lines \<open>ls\<close> without a line feed. \<open>sub_line v l\<close> is the line \<open>l\<close> with the value
  of its version field, if it starts with one, replaced by \<open>v\<close>.

  \<open>fields_within_lines ls\<close> says that no match of the pattern of \<^verbatim>\<open>re.sub\<close> runs over the end
  of a line (both \<^verbatim>\<open>\s*\<close> and \<^verbatim>\<open>[^"]+\<close> could): where the pattern matches at the start of a line
  that is not blank, it matches within that line. \<open>lit v\<close> is the expansion of a template
  without escapes, \<open>quotes\<close> counts the double quotes of a text.
\<close>

definition sub_line :: "string \<Rightarrow> string \<Rightarrow> string" where
  "sub_line v l =
     (case match_update l of None \<Rightarrow> l | Some (g, old, r) \<Rightarrow> g @ v @ [dquote] @ r)"

fun fields_within_lines :: "string list \<Rightarrow> bool" where
  "fields_within_lines [] = True"
| "fields_within_lines (l # ls) =
     (nl \<notin> set l \<and>
      (match_update (join [nl] (l # ls)) \<noteq> None \<longrightarrow>
         match_update l \<noteq> None \<or> dropWhile is_space l = []) \<and>
      fields_within_lines ls)"

abbreviation lit :: "string \<Rightarrow> repl" where
  "lit v \<equiv> (\<lambda>g1 old g2. g1 @ v @ g2)"

definition quotes :: "string \<Rightarrow> nat" where
  "quotes s = length (filter (\<lambda>c. c = dquote) s)"


section \<open>Properties\<close>

subsection \<open>Detection, casing and the command steps\<close>

lemma glob_rec_mem:
  "(p, n) \<in> set t \<Longrightarrow> p \<noteq> [] \<Longrightarrow> ends_with ext (last p) \<Longrightarrow> glob_rec ext t \<noteq> []"
  unfolding glob_rec_def by (force simp: filter_empty_conv)

text \<open>
  Claim C6. \<open>detect\<close> holds of a tree that has the root file \<^verbatim>\<open>alire.toml\<close>, and of a tree
  that has, at any depth, an entry whose name ends in \<^verbatim>\<open>.ads\<close>, \<^verbatim>\<open>.adb\<close> or \<^verbatim>\<open>.gpr\<close>, whatever
  else the tree holds or lacks; it fails of the empty tree.
\<close>

theorem detect_cases:
  "(exists t [''alire.toml''] \<longrightarrow> detect t) \<and>
   ((p, n) \<in> set t \<and> p \<noteq> [] \<and>
      (ends_with ''.ads'' (last p) \<or> ends_with ''.adb'' (last p) \<or> ends_with ''.gpr'' (last p))
      \<longrightarrow> detect t) \<and>
   \<not> detect []"
proof (intro conjI impI)
  assume "exists t [''alire.toml'']"
  then show "detect t" by (simp add: detect_def)
next
  assume a: "(p, n) \<in> set t \<and> p \<noteq> [] \<and>
      (ends_with ''.ads'' (last p) \<or> ends_with ''.adb'' (last p) \<or> ends_with ''.gpr'' (last p))"
  then have "glob_rec ''.ads'' t \<noteq> [] \<or> glob_rec ''.adb'' t \<noteq> [] \<or> glob_rec ''.gpr'' t \<noteq> []"
    using glob_rec_mem by blast
  then show "detect t" by (auto simp: detect_def)
next
  show "\<not> detect []" by (simp add: detect_def exists_def glob_root_def glob_rec_def)
qed

theorem detect_cases_witness:
  "exists [([''alire.toml''], File None [] None)] [''alire.toml''] \<and>
   detect [([''alire.toml''], File None [] None)] \<and>
   detect [([''src''], Dir), ([''src'', ''core''], Dir), ([''src'', ''core'', ''api''], Dir),
           ([''src'', ''core'', ''api'', ''main.adb''], File None [] None)] \<and>
   \<not> detect []"
proof -
  have e: "exists [([''alire.toml''], File None [] None)] [''alire.toml'']"
    by (simp add: exists_def)
  have s: "ends_with ''.adb'' (last [''src'', ''core'', ''api'', ''main.adb''])"
    by (simp add: ends_with_def)
  show ?thesis
    using e s
      detect_cases [of "[([''alire.toml''], File None [] None)]" "[]" Dir]
      detect_cases [of "[([''src''], Dir), ([''src'', ''core''], Dir), ([''src'', ''core'', ''api''], Dir),
           ([''src'', ''core'', ''api'', ''main.adb''], File None [] None)]"
           "[''src'', ''core'', ''api'', ''main.adb'']" "File None [] None"]
    by simp
qed


text \<open>
  Claim C8. The package name of \<^verbatim>\<open>foo_bar_baz\<close> is \<^verbatim>\<open>Foo_Bar_Baz\<close>, and every project name that
  is \<^verbatim>\<open>hybrid_app_ada\<close> up to the case of its letters has the package name \<^verbatim>\<open>Hybrid_App_Ada\<close>.
\<close>

theorem package_name_casing:
  "package_name ''foo_bar_baz'' = ''Foo_Bar_Baz'' \<and>
   (lower s = ''hybrid_app_ada'' \<longrightarrow> package_name s = ''Hybrid_App_Ada'')"
proof
  show "package_name ''foo_bar_baz'' = ''Foo_Bar_Baz''" by code_simp
next
  show "lower s = ''hybrid_app_ada'' \<longrightarrow> package_name s = ''Hybrid_App_Ada''"
    by (simp add: package_name_def)
qed

theorem package_name_casing_witness:
  "lower ''HYBRID_App_ADA'' = ''hybrid_app_ada'' \<and> package_name ''HYBRID_App_ADA'' = ''Hybrid_App_Ada''"
proof -
  have l: "lower ''HYBRID_App_ADA'' = ''hybrid_app_ada''"
    by code_simp
  show ?thesis using l package_name_casing [of "''HYBRID_App_ADA''"] by simp
qed

text \<open>
  Claim C9. When the generator script is at neither of its two places,
  \<open>generate_version_file\<close> returns \<open>True\<close>; it prints one line, runs no command and leaves
  the tree as it is.
\<close>

theorem generate_version_file_absent:
  "\<not> exists (files w) [''scripts'', ''release'', ''generate_version.py''] \<Longrightarrow>
   \<not> exists (files w) [''scripts'', ''generate_version.py''] \<Longrightarrow>
   generate_version_file rc exe cfg w =
     (True, w\<lparr>out := out w @ [''  generate_version.py not found, skipping version package generation'']\<rparr>)"
  by (simp add: generate_version_file_def print_def)

theorem generate_version_file_absent_witness:
  "generate_version_file (\<lambda>cmd cap w. (None, files w, [])) ''python3''
     \<lparr>project_root = \<lparr>anchor = ''/'', names = [''home'', ''demo'']\<rparr>, version = ''0.2.0'',
      project_name = ''demo''\<rparr>
     \<lparr>files = [([''alire.toml''], File None ''x'' None)], out = [], calls = []\<rparr>
   = (True, \<lparr>files = [([''alire.toml''], File None ''x'' None)],
             out = [''  generate_version.py not found, skipping version package generation''],
             calls = []\<rparr>)"
  using generate_version_file_absent
    [of "\<lparr>files = [([''alire.toml''], File None ''x'' None)], out = [], calls = []\<rparr>"
        "\<lambda>cmd cap w. (None, files w, [])" "''python3''"
        "\<lparr>project_root = \<lparr>anchor = ''/'', names = [''home'', ''demo'']\<rparr>, version = ''0.2.0'',
          project_name = ''demo''\<rparr>"]
  by (simp add: exists_def)

text \<open>
  Claim C10. \<open>run_tests\<close>, \<open>run_format\<close> and \<open>cleanup_temp_files\<close> return \<open>True\<close> whatever the
  tree holds and whatever the commands they run return. \<open>run_build\<close> returns \<open>False\<close> when
  neither \<^verbatim>\<open>make build\<close> nor \<^verbatim>\<open>alr build\<close> returns a true result.
\<close>

theorem best_effort_steps:
  "fst (run_tests rc cfg w) \<and> fst (run_format rc cfg w) \<and> fst (cleanup_temp_files rc exe cfg w) \<and>
   ((\<forall>cap w'. \<not> truthy (fst (rc [''make'', ''build''] cap w')) \<and>
              \<not> truthy (fst (rc [''alr'', ''build''] cap w')))
      \<longrightarrow> \<not> fst (run_build rc cfg w))"
proof (intro conjI impI)
  show "fst (run_tests rc cfg w)"
    by (simp add: run_tests_def Let_def split: prod.splits)
  show "fst (run_format rc cfg w)"
    by (simp add: run_format_def Let_def split: prod.splits)
  show "fst (cleanup_temp_files rc exe cfg w)"
    by (simp add: cleanup_temp_files_def Let_def split: prod.splits)
next
  assume a: "\<forall>cap w'. \<not> truthy (fst (rc [''make'', ''build''] cap w')) \<and>
              \<not> truthy (fst (rc [''alr'', ''build''] cap w'))"
  have b: "\<not> truthy (fst (run_command rc [''make'', ''build''] False w'))" for w'
    using a [rule_format, of False w'] by (auto simp add: run_command_def split: prod.splits)
  have c: "\<not> truthy (fst (run_command rc [''alr'', ''build''] False w'))" for w'
    using a [rule_format, of False w'] by (auto simp add: run_command_def split: prod.splits)
  show "\<not> fst (run_build rc cfg w)"
    using b c by (auto simp add: run_build_def Let_def split: prod.splits dest: fstI)
qed

theorem best_effort_steps_witness:
  "fst (run_tests (\<lambda>cmd cap w. (None, files w, []))
          \<lparr>project_root = \<lparr>anchor = ''/'', names = [''home'', ''demo'']\<rparr>, version = ''0.2.0'',
           project_name = ''demo''\<rparr>
          \<lparr>files = [([''Makefile''], File None [] None)], out = [], calls = []\<rparr>) \<and>
   \<not> fst (run_build (\<lambda>cmd cap w. (None, files w, []))
          \<lparr>project_root = \<lparr>anchor = ''/'', names = [''home'', ''demo'']\<rparr>, version = ''0.2.0'',
           project_name = ''demo''\<rparr>
          \<lparr>files = [([''Makefile''], File None [] None)], out = [], calls = []\<rparr>)"
  using best_effort_steps [of "\<lambda>cmd cap w. (None, files w, [])"
          "\<lparr>project_root = \<lparr>anchor = ''/'', names = [''home'', ''demo'']\<rparr>, version = ''0.2.0'',
            project_name = ''demo''\<rparr>"
          "\<lparr>files = [([''Makefile''], File None [] None)], out = [], calls = []\<rparr>"]
  by (simp add: truthy_def)

subsection \<open>update_version and load_project_info\<close>

lemma match_lit_version_head:
  "match_lit ''version'' s = Some r \<Longrightarrow> \<exists>cs. s = CHR ''v'' # cs"
  by (cases s) (auto split: if_splits)

lemma not_space_v: "\<not> is_space CHR ''v''"
  by (simp add: is_space_def)




lemma read_text_exists: "read_text root t p = Inr body \<Longrightarrow> exists t p"
  by (auto simp: read_text_def exists_def split: option.splits)

lemma path_exists_full_access: "path_exists full_access t p = Inr (exists t p)"
  by (simp add: path_exists_def full_access_def)

lemma universal_newlines_id: "cr \<notin> set c \<Longrightarrow> universal_newlines c = c"
  by (induction c rule: universal_newlines.induct) auto



text \<open>
  Claim C4. The call \<^verbatim>\<open>root_toml.exists()\<close> of line 114 stands before the \<^verbatim>\<open>try\<close> of lines 118
  to 153. Where \<^verbatim>\<open>stat\<close> raises on the root \<^verbatim>\<open>alire.toml\<close>, the exception leaves
  \<open>update_version\<close>: no result is returned and nothing is printed.
\<close>

theorem update_version_stat_raises:
  "stat_error a [''alire.toml''] = Some m \<Longrightarrow>
   update_version esc a cfg w = Inl (PermissionError m, w)"
  by (simp add: update_version_def path_exists_def)

theorem update_version_stat_raises_witness:
  "update_version (\<lambda>v. Inl ''bad escape'')
     \<lparr>stat_error = (\<lambda>p. Some (''[Errno 13] Permission denied: '' @ [CHR 0x27]
                               @ ''/home/demo/'' @ join ''/'' p @ [CHR 0x27])),
      listable = (\<lambda>d. False)\<rparr>
     \<lparr>project_root = \<lparr>anchor = ''/'', names = [''home'', ''demo'']\<rparr>, version = ''0.2.0'',
      project_name = ''demo''\<rparr>
     \<lparr>files = [([''alire.toml''], File None (''version = '' @ [dquote] @ ''0.1.0'' @ [dquote, nl]) None)],
      out = [], calls = []\<rparr>
   = Inl (PermissionError (''[Errno 13] Permission denied: '' @ [CHR 0x27]
                             @ ''/home/demo/alire.toml'' @ [CHR 0x27]),
          \<lparr>files = [([''alire.toml''],
                      File None (''version = '' @ [dquote] @ ''0.1.0'' @ [dquote, nl]) None)],
           out = [], calls = []\<rparr>)"
proof -
  let ?a = "\<lparr>stat_error = (\<lambda>p. Some (''[Errno 13] Permission denied: '' @ [CHR 0x27]
                               @ ''/home/demo/'' @ join ''/'' p @ [CHR 0x27])),
      listable = (\<lambda>d. False)\<rparr>"
  have s: "stat_error ?a [''alire.toml'']
             = Some (''[Errno 13] Permission denied: '' @ [CHR 0x27]
                       @ ''/home/demo/alire.toml'' @ [CHR 0x27])" by simp
  show ?thesis using update_version_stat_raises [OF s] by simp
qed

text \<open>
  Everything else ends as a result. Without the file the result is \<open>False\<close> with the line
  that it was not found. What the body of the \<^verbatim>\<open>try\<close> raises is caught: the result is
  \<open>False\<close> with one line that holds \<^verbatim>\<open>str(e)\<close>, whether \<^verbatim>\<open>read_text\<close> raises, the entry is a
  directory, \<^verbatim>\<open>re.sub\<close> rejects the template, or \<^verbatim>\<open>write_text\<close> raises; in the last case the
  file holds what the failed write left of it.
\<close>

lemma update_version_absent:
  "stat_error a [''alire.toml''] = None \<Longrightarrow> map_of (files w) [''alire.toml''] = None \<Longrightarrow>
   update_version esc a cfg w = Inr (False, w\<lparr>out := out w @ [''  alire.toml not found'']\<rparr>)"
  by (simp add: update_version_def path_exists_def exists_def print_def)

lemma update_version_caught:
  "stat_error a [''alire.toml''] = None \<Longrightarrow> exists (files w) [''alire.toml''] \<Longrightarrow>
   update_version_try esc cfg w = Inl (e, u) \<Longrightarrow>
   update_version esc a cfg w =
     Inr (False, u\<lparr>out := out u @ [''Error updating root alire.toml: '' @ exn_str e]\<rparr>)"
  by (simp add: update_version_def path_exists_def print_def)

lemma update_version_returns:
  "stat_error a [''alire.toml''] = None \<Longrightarrow> \<exists>b u. update_version esc a cfg w = Inr (b, u)"
  by (auto simp: update_version_def path_exists_def split: sum.splits prod.splits bool.splits)

lemma update_version_read_error:
  "stat_error a [''alire.toml''] = None \<Longrightarrow>
   map_of (files w) [''alire.toml''] = Some (File (Some e) c we) \<Longrightarrow>
   update_version esc a cfg w =
     Inr (False, w\<lparr>out := out w @ [''Error updating root alire.toml: '' @ exn_str e]\<rparr>)"
  by (simp add: update_version_def path_exists_def exists_def update_version_try_def
        read_text_def print_def)

lemma update_version_directory:
  "stat_error a [''alire.toml''] = None \<Longrightarrow> map_of (files w) [''alire.toml''] = Some Dir \<Longrightarrow>
   update_version esc a cfg w =
     Inr (False, w\<lparr>out := out w @ [''Error updating root alire.toml: '' @
            exn_str (os_error ''[Errno 21] Is a directory'' (project_root cfg) [''alire.toml''])]\<rparr>)"
  by (simp add: update_version_def path_exists_def exists_def update_version_try_def
        read_text_def print_def)

lemma update_version_template_error:
  assumes "stat_error a [''alire.toml''] = None"
    and "map_of (files w) [''alire.toml''] = Some (File None c we)"
    and "re_search ''version'' (universal_newlines c) \<noteq> Some (version cfg)"
    and "version_template esc (version cfg) = Inl msg"
  shows "update_version esc a cfg w =
           Inr (False, w\<lparr>out := out w @ [''Error updating root alire.toml: '' @ msg]\<rparr>)"
  using assms
  by (simp add: update_version_def path_exists_def exists_def update_version_try_def
        read_text_def re_sub_def print_def)

lemma update_version_write_error:
  assumes "stat_error a [''alire.toml''] = None"
    and "map_of (files w) [''alire.toml''] = Some (File None c (Some (e, left)))"
    and "re_search ''version'' (universal_newlines c) \<noteq> Some (version cfg)"
    and "re_sub esc (version cfg) (universal_newlines c) = Inr new"
    and "new \<noteq> universal_newlines c"
  shows "update_version esc a cfg w =
           Inr (False,
                w\<lparr>files := AList.update [''alire.toml''] (File None left (Some (e, left))) (files w),
                  out := out w @ [''Error updating root alire.toml: '' @ exn_str e]\<rparr>)"
  using assms
  by (simp add: update_version_def path_exists_def exists_def update_version_try_def
        read_text_def write_text_def print_def)

text \<open>
  When the search for \<^verbatim>\<open>^version\s*=\s*"([^"]+)"\<close> finds the target version, nothing is
  written and the result is \<open>True\<close>.
\<close>

lemma update_version_same:
  assumes "stat_error a [''alire.toml''] = None"
    and "read_text (project_root cfg) (files w) [''alire.toml''] = Inr body"
    and "re_search ''version'' body = Some (version cfg)"
  shows "update_version esc a cfg w =
           Inr (True, w\<lparr>out := out w @ [''  Root alire.toml already has version = '' @ [dquote]
                                           @ version cfg @ [dquote]]\<rparr>)"
  using assms read_text_exists [OF assms(2)]
  by (simp add: update_version_def path_exists_def update_version_try_def print_def)

text \<open>
  Claim C2. The search of lines 122 to 126 does not accept white space before \<^verbatim>\<open>version\<close>,
  the substitution of lines 136 to 141 does. On a file whose indented version field holds
  the target version already, the search finds nothing, the substitution changes nothing,
  and \<open>update_version\<close> reports that the version field was not found and returns \<open>False\<close>.
\<close>

theorem update_version_indented_same:
  "update_version esc full_access
     \<lparr>project_root = \<lparr>anchor = ''/'', names = [''home'', ''demo'']\<rparr>, version = ''0.2.0'',
      project_name = ''demo''\<rparr>
     \<lparr>files = [([''alire.toml''], File None (''  version = '' @ [dquote] @ ''0.2.0'' @ [dquote, nl]) None)],
      out = [], calls = []\<rparr>
   = Inr (False,
      \<lparr>files = [([''alire.toml''], File None (''  version = '' @ [dquote] @ ''0.2.0'' @ [dquote, nl]) None)],
       out = [''  Error: Version field not found in /home/demo/alire.toml''], calls = []\<rparr>)"
  by (simp add: update_version_def update_version_try_def path_exists_full_access exists_def
        read_text_def re_search_def match_field_def re_sub_def version_template_def
        match_update_def is_space_def print_def path_str_def path_join_def)

theorem update_version_indented_same_witness:
  "update_version (\<lambda>v. Inl ''bad escape'') full_access
     \<lparr>project_root = \<lparr>anchor = ''/'', names = [''home'', ''demo'']\<rparr>, version = ''0.2.0'',
      project_name = ''demo''\<rparr>
     \<lparr>files = [([''alire.toml''], File None (''  version = '' @ [dquote] @ ''0.2.0'' @ [dquote, nl]) None)],
      out = [], calls = []\<rparr>
   \<noteq> Inr (True,
      \<lparr>files = [([''alire.toml''], File None (''  version = '' @ [dquote] @ ''0.2.0'' @ [dquote, nl]) None)],
       out = [''  Root alire.toml already has version = '' @ [dquote] @ ''0.2.0'' @ [dquote]],
       calls = []\<rparr>)"
  using update_version_indented_same [of "\<lambda>v. Inl ''bad escape''"] by simp

text \<open>
  Claim C5. \<open>load_project_info\<close> has no \<^verbatim>\<open>try\<close>, unlike \<open>update_version\<close> and the loop of
  \<open>sync_versions\<close>. When \<^verbatim>\<open>alire.toml\<close> is there and reading it raises (no permission to open
  it, bytes that are not UTF-8), the exception leaves the method: it returns no name and
  no url.
\<close>

theorem load_project_info_raises:
  "path_exists a t [''alire.toml''] = Inr True \<Longrightarrow>
   read_text (project_root cfg) t [''alire.toml''] = Inl e \<Longrightarrow>
   load_project_info a cfg t = Inl e"
  by (simp add: load_project_info_def)

theorem load_project_info_raises_witness:
  "load_project_info full_access
     \<lparr>project_root = \<lparr>anchor = ''/'', names = [''home'', ''demo'']\<rparr>, version = ''0.2.0'',
      project_name = ''demo''\<rparr>
     [([''alire.toml''],
       File (Some (PermissionError (''[Errno 13] Permission denied: '' @ [CHR 0x27]
                                      @ ''/home/demo/alire.toml'' @ [CHR 0x27])))
         (''name = '' @ [dquote] @ ''demo'' @ [dquote, nl]) None)]
   = Inl (PermissionError (''[Errno 13] Permission denied: '' @ [CHR 0x27]
                             @ ''/home/demo/alire.toml'' @ [CHR 0x27]))"
proof -
  let ?cfg = "\<lparr>project_root = \<lparr>anchor = ''/'', names = [''home'', ''demo'']\<rparr>, version = ''0.2.0'',
      project_name = ''demo''\<rparr>"
  let ?e = "PermissionError (''[Errno 13] Permission denied: '' @ [CHR 0x27]
                               @ ''/home/demo/alire.toml'' @ [CHR 0x27])"
  let ?t = "[([''alire.toml''], File (Some ?e) (''name = '' @ [dquote] @ ''demo'' @ [dquote, nl]) None)]"
  have a: "path_exists full_access ?t [''alire.toml''] = Inr True"
    by (simp add: path_exists_full_access exists_def)
  have b: "read_text (project_root ?cfg) ?t [''alire.toml''] = Inl ?e" by (simp add: read_text_def)
  show ?thesis using load_project_info_raises [OF a b] by simp
qed

text \<open>
  So does an exception of \<^verbatim>\<open>toml_path.exists()\<close> in line 79. Without the file the method
  returns the base name of the project root and an empty url. With a readable file it
  returns the value of the first \<^verbatim>\<open>name\<close> field, or the base name when there is none, and
  the value of the first \<^verbatim>\<open>website\<close> field without a final \<^verbatim>\<open>.git\<close>, or the empty text when
  there is none: the url is taken from the file also when the name is not.
\<close>

lemma load_project_info_stat_raises:
  "stat_error a [''alire.toml''] = Some m \<Longrightarrow> load_project_info a cfg t = Inl (PermissionError m)"
  by (simp add: load_project_info_def path_exists_def)

lemma load_project_info_absent:
  "stat_error a [''alire.toml''] = None \<Longrightarrow> map_of t [''alire.toml''] = None \<Longrightarrow>
   load_project_info a cfg t = Inr (path_name (project_root cfg), [])"
  by (simp add: load_project_info_def path_exists_def exists_def)

lemma search_from_value: "search_from k b s = Some v \<Longrightarrow> v \<noteq> []"
proof (induction s arbitrary: b)
  case Nil
  then show ?case by simp
next
  case (Cons c cs)
  show ?case
  proof (cases "if b then match_field k (c # cs) else None")
    case None
    then show ?thesis using Cons by simp
  next
    case (Some m)
    obtain g x r where m: "m = (g, x, r)" by (cases m)
    have "b" using Some by (simp split: if_splits)
    then have f: "match_field k (c # cs) = Some (g, v, r)" using Some m Cons.prems by simp
    then show ?thesis
      unfolding match_field_def
      by (auto split: option.splits list.splits if_splits simp: Let_def)
  qed
qed

lemma load_project_info_readable:
  assumes "stat_error a [''alire.toml''] = None"
    and "read_text (project_root cfg) t [''alire.toml''] = Inr body"
  shows "load_project_info a cfg t =
           Inr (case re_search ''name'' body of
                  None \<Rightarrow> path_name (project_root cfg)
                | Some n \<Rightarrow> n,
                case re_search ''website'' body of
                  None \<Rightarrow> []
                | Some url \<Rightarrow> if ends_with ''.git'' url then take (length url - 4) url else url)"
proof -
  have e: "path_exists a t [''alire.toml''] = Inr True"
    using assms(1) read_text_exists [OF assms(2)] by (simp add: path_exists_def)
  have n: "n \<noteq> []" if "re_search ''name'' body = Some n" for n
    using that search_from_value by (simp add: re_search_def)
  show ?thesis
  proof (cases "re_search ''name'' body")
    case None
    then show ?thesis using e assms(2) by (simp add: load_project_info_def Let_def)
  next
    case (Some x)
    then show ?thesis using e assms(2) n [OF Some] by (simp add: load_project_info_def Let_def)
  qed
qed

lemma load_project_info_website_only:
  "load_project_info full_access
     \<lparr>project_root = \<lparr>anchor = ''/'', names = [''home'', ''demo'']\<rparr>, version = ''0.2.0'',
      project_name = ''demo''\<rparr>
     [([''alire.toml''],
       File None (''website = '' @ [dquote] @ ''https://example.org/demo.git'' @ [dquote, nl]) None)]
   = Inr (''demo'', ''https://example.org/demo'')"
  by (simp add: load_project_info_def path_exists_full_access exists_def read_text_def re_search_def
        match_field_def is_space_def ends_with_def path_name_def)

subsection \<open>The substitution, line by line\<close>

lemma match_lit_iff: "match_lit k s = Some r \<longleftrightarrow> s = k @ r"
  by (induction k s rule: match_lit.induct) auto

lemma match_field_Nil: "match_field k [] = None"
  by (cases k) (simp_all add: match_field_def)

lemma match_update_Nil: "match_update [] = None"
  by (simp add: match_update_def match_field_Nil)

lemma match_field_decomp:
  assumes "match_field k s = Some (g, v, r)"
  shows "s = g @ v @ dquote # r \<and> dquote \<notin> set v \<and> v \<noteq> []"
proof -
  from assms obtain s1 s2 s3 where
    s1: "match_lit k s = Some s1" and
    s2: "dropWhile is_space s1 = CHR ''='' # s2" and
    s3: "dropWhile is_space s2 = dquote # s3" and
    v: "v = takeWhile (\<lambda>c. c \<noteq> dquote) s3" and
    ne: "v \<noteq> []" "dropWhile (\<lambda>c. c \<noteq> dquote) s3 \<noteq> []" and
    r: "r = tl (dropWhile (\<lambda>c. c \<noteq> dquote) s3)" and
    g: "g = k @ takeWhile is_space s1 @ [CHR ''=''] @ takeWhile is_space s2 @ [dquote]"
    unfolding match_field_def
    by (auto split: option.splits list.splits if_splits simp: Let_def)
  have a: "s = k @ s1" using s1 by (simp add: match_lit_iff)
  have b: "s1 = takeWhile is_space s1 @ CHR ''='' # s2"
    using s2 takeWhile_dropWhile_id [of is_space s1] by simp
  have c: "s2 = takeWhile is_space s2 @ dquote # s3"
    using s3 takeWhile_dropWhile_id [of is_space s2] by simp
  have "hd (dropWhile (\<lambda>c. c \<noteq> dquote) s3) = dquote"
    using ne(2) hd_dropWhile [of "\<lambda>c. c \<noteq> dquote" s3] by simp
  then have "dropWhile (\<lambda>c. c \<noteq> dquote) s3 = dquote # r"
    using ne(2) r by (cases "dropWhile (\<lambda>c. c \<noteq> dquote) s3") auto
  then have d: "s3 = v @ dquote # r"
    using takeWhile_dropWhile_id [of "\<lambda>c. c \<noteq> dquote" s3] v by simp
  have "s = g @ v @ dquote # r"
    by (subst a, subst b, subst c, subst d) (simp add: g)
  moreover have "dquote \<notin> set v" using v by (auto dest: set_takeWhileD)
  ultimately show ?thesis using ne(1) by simp
qed

lemma match_update_decomp:
  assumes "match_update s = Some (g, v, r)"
  shows "s = g @ v @ dquote # r \<and> dquote \<notin> set v \<and> v \<noteq> []"
proof -
  from assms obtain g' where
    m: "match_field ''version'' (dropWhile is_space s) = Some (g', v, r)" and
    g: "g = takeWhile is_space s @ g'"
    unfolding match_update_def by (auto split: option.splits)
  have "dropWhile is_space s = g' @ v @ dquote # r" and "dquote \<notin> set v" and "v \<noteq> []"
    using match_field_decomp [OF m] by auto
  moreover have "s = takeWhile is_space s @ dropWhile is_space s" by simp
  ultimately show ?thesis using g by (metis append_assoc)
qed


lemma match_update_ws:
  assumes "\<forall>c \<in> set w. is_space c"
  shows "match_update (w @ s) = map_option (\<lambda>(g, v, r). (w @ g, v, r)) (match_update s)"
proof -
  have "dropWhile is_space (w @ s) = dropWhile is_space s"
    using assms by (simp add: dropWhile_append2)
  moreover have "takeWhile is_space (w @ s) = w @ takeWhile is_space s"
    using assms by (simp add: takeWhile_append2)
  ultimately show ?thesis
    by (simp add: match_update_def split: option.splits)
qed

lemma sub_from_None: "match_update s = None \<Longrightarrow> sub_from repl True s = sub_from repl False s"
  by (cases s) simp_all

lemma sub_from_Some:
  "match_update s = Some (g, v, r) \<Longrightarrow>
   sub_from repl True s = repl g v [dquote] @ sub_from repl False r"
  by (cases s) (simp_all add: match_update_Nil)

lemma sub_from_ws_None:
  "\<forall>c \<in> set w. is_space c \<Longrightarrow> match_update s = None \<Longrightarrow>
   sub_from repl b (w @ s) = w @ sub_from repl False s"
proof (induction w arbitrary: b)
  case Nil
  then show ?case by (cases b) (simp_all add: sub_from_None)
next
  case (Cons c w)
  have "match_update ((c # w) @ s) = None"
    using Cons.prems by (simp add: match_update_ws del: append_Cons)
  then have "sub_from repl b (c # w @ s) = c # sub_from repl (c = nl) (w @ s)"
    by simp
  with Cons show ?case by simp
qed

lemma sub_from_ws:
  assumes "\<forall>c \<in> set w. is_space c"
  shows "sub_from (lit v) True (w @ s) = w @ sub_from (lit v) True s"
proof (cases "match_update s")
  case None
  then show ?thesis using assms by (simp add: sub_from_ws_None sub_from_None)
next
  case (Some m)
  obtain g old r where m: "m = (g, old, r)" by (cases m)
  have "match_update (w @ s) = Some (w @ g, old, r)"
    using assms Some m by (simp add: match_update_ws)
  then show ?thesis using Some m by (simp add: sub_from_Some)
qed

lemma sub_from_line:
  "nl \<notin> set a \<Longrightarrow> sub_from repl False (a @ nl # x) = a @ nl # sub_from repl True x"
  by (induction a) auto

lemma sub_from_last_line: "nl \<notin> set a \<Longrightarrow> sub_from repl False a = a"
  by (induction a) auto

lemma dropWhile_append_hit:
  "dropWhile P xs = y # ys \<Longrightarrow>
   dropWhile P (xs @ zs) = y # ys @ zs \<and> takeWhile P (xs @ zs) = takeWhile P xs"
  by (induction xs) (auto split: if_splits)

lemma match_field_append:
  assumes "match_field k a = Some (g, v, r)"
  shows "match_field k (a @ b) = Some (g, v, r @ b)"
proof -
  from assms obtain s1 s2 s3 where
    s1: "match_lit k a = Some s1" and
    s2: "dropWhile is_space s1 = CHR ''='' # s2" and
    s3: "dropWhile is_space s2 = dquote # s3" and
    v: "v = takeWhile (\<lambda>c. c \<noteq> dquote) s3" and
    ne: "v \<noteq> []" "dropWhile (\<lambda>c. c \<noteq> dquote) s3 \<noteq> []" and
    r: "r = tl (dropWhile (\<lambda>c. c \<noteq> dquote) s3)" and
    g: "g = k @ takeWhile is_space s1 @ [CHR ''=''] @ takeWhile is_space s2 @ [dquote]"
    unfolding match_field_def
    by (auto split: option.splits list.splits if_splits simp: Let_def)
  obtain y ys where d: "dropWhile (\<lambda>c. c \<noteq> dquote) s3 = y # ys"
    using ne(2) by (cases "dropWhile (\<lambda>c. c \<noteq> dquote) s3") auto
  have q: "dquote \<in> set s3" using ne(2) by (auto simp: dropWhile_eq_Nil_conv)
  have a1: "match_lit k (a @ b) = Some (s1 @ b)" using s1 by (simp add: match_lit_iff)
  note a2 = dropWhile_append_hit [OF s2, of b]
  note a3 = dropWhile_append_hit [OF s3, of b]
  note a4 = dropWhile_append_hit [OF d, of b]
  have "match_field k (a @ b) =
          Some (k @ takeWhile is_space s1 @ [CHR ''=''] @ takeWhile is_space s2 @ [dquote],
                takeWhile (\<lambda>c. c \<noteq> dquote) s3, ys @ b)"
    unfolding match_field_def
    using ne(1) q by (simp add: a1 a2 a3 a4 Let_def v)
  then show ?thesis by (simp add: g v r d)
qed

lemma match_update_append:
  assumes "match_update a = Some (g, v, r)"
  shows "match_update (a @ b) = Some (g, v, r @ b)"
proof -
  from assms obtain g' where
    m: "match_field ''version'' (dropWhile is_space a) = Some (g', v, r)" and
    g: "g = takeWhile is_space a @ g'"
    unfolding match_update_def by (auto split: option.splits)
  obtain y ys where d: "dropWhile is_space a = y # ys"
    using m by (cases "dropWhile is_space a") (simp_all add: match_field_Nil)
  note h = dropWhile_append_hit [OF d, of b]
  have "match_field ''version'' (dropWhile is_space a @ b) = Some (g', v, r @ b)"
    using m by (rule match_field_append)
  then show ?thesis
    by (simp add: match_update_def h d g)
qed

lemma is_space_nl: "is_space nl"
  by (simp add: is_space_def)

lemma sub_from_last:
  assumes "nl \<notin> set l"
  shows "sub_from (lit v) True l = sub_line v l"
proof (cases "match_update l")
  case None
  then show ?thesis using assms by (simp add: sub_from_None sub_from_last_line sub_line_def)
next
  case (Some m)
  obtain g old r where m: "match_update l = Some (g, old, r)" using Some by (cases m) simp
  have d: "l = g @ old @ dquote # r" using match_update_decomp [OF m] by simp
  have r: "nl \<notin> set r" using assms by (subst (asm) d) simp
  show ?thesis using r by (simp add: sub_from_Some [OF m] sub_from_last_line sub_line_def m)
qed

lemma sub_from_one_line:
  assumes "nl \<notin> set l"
    and "match_update (l @ nl # x) \<noteq> None \<longrightarrow>
           match_update l \<noteq> None \<or> dropWhile is_space l = []"
  shows "sub_from (lit v) True (l @ nl # x) = sub_line v l @ nl # sub_from (lit v) True x"
proof -
  consider (blank) "dropWhile is_space l = []"
    | (other) "match_update (l @ nl # x) = None" "match_update l = None"
    | (field) g old r where "match_update l = Some (g, old, r)"
  proof (cases "match_update l")
    case None
    then have "dropWhile is_space l = [] \<or> match_update (l @ nl # x) = None"
      using assms(2) by blast
    with None show ?thesis using blank other by blast
  next
    case (Some m)
    then show ?thesis using field by (cases m) blast
  qed
  then show ?thesis
  proof cases
    case blank
    then have "\<forall>c \<in> set l. is_space c" by (simp add: dropWhile_eq_Nil_conv)
    then have w: "\<forall>c \<in> set (l @ [nl]). is_space c" by (simp add: is_space_nl)
    have n: "sub_line v l = l"
      by (simp add: sub_line_def match_update_def blank match_field_Nil)
    have "sub_from (lit v) True ((l @ [nl]) @ x) = (l @ [nl]) @ sub_from (lit v) True x"
      using w by (rule sub_from_ws)
    then show ?thesis by (simp add: n)
  next
    case other
    have n: "sub_line v l = l" by (simp add: sub_line_def other(2))
    show ?thesis
      using assms(1) by (simp add: sub_from_None other(1) sub_from_line n)
  next
    case field
    have d: "l = g @ old @ dquote # r" using match_update_decomp [OF field] by simp
    have r: "nl \<notin> set r" using assms(1) by (subst (asm) d) simp
    have n: "sub_line v l = g @ v @ [dquote] @ r" by (simp add: sub_line_def field)
    have m: "match_update (l @ nl # x) = Some (g, old, r @ nl # x)"
      using field by (rule match_update_append)
    show ?thesis
      using r by (simp add: sub_from_Some [OF m] sub_from_line n)
  qed
qed

lemma sub_from_lines:
  "fields_within_lines ls \<Longrightarrow>
   sub_from (lit v) True (join [nl] ls) = join [nl] (map (sub_line v) ls)"
proof (induction "[nl]" ls rule: join.induct)
  case 1
  show ?case by simp
next
  case (2 x)
  then show ?case by (simp add: sub_from_last)
next
  case (3 x y ys)
  have a: "nl \<notin> set x"
    and b: "match_update (x @ nl # join [nl] (y # ys)) \<noteq> None \<longrightarrow>
              match_update x \<noteq> None \<or> dropWhile is_space x = []"
    and c: "fields_within_lines (y # ys)"
    using 3(2) by simp_all
  show ?case
    using 3(1) [OF c] by (simp add: sub_from_one_line [OF a b])
qed

lemma search_from_line:
  "nl \<notin> set a \<Longrightarrow> search_from k False (a @ nl # x) = search_from k True x"
  by (induction a) auto

lemma search_from_last_line: "nl \<notin> set a \<Longrightarrow> search_from k False a = None"
  by (induction a) auto

lemma search_from_None:
  "match_field k s = None \<Longrightarrow> search_from k True s = search_from k False s"
  by (cases s) simp_all

lemma search_from_Some:
  "match_field k s = Some (g, v, r) \<Longrightarrow> search_from k True s = Some v"
  by (cases s) (simp_all add: match_field_Nil)

lemma match_field_version_update:
  assumes "match_field ''version'' l = Some (g, v, r)"
  shows "match_update l = Some (g, v, r)"
proof -
  from assms obtain r' where "match_lit ''version'' l = Some r'"
    unfolding match_field_def by (auto split: option.splits)
  then obtain cs where "l = CHR ''v'' # cs" using match_lit_version_head by blast
  then have "dropWhile is_space l = l" "takeWhile is_space l = []"
    by (simp_all add: not_space_v)
  with assms show ?thesis by (simp add: match_update_def)
qed

lemma search_last:
  assumes "nl \<notin> set l"
  shows "search_from ''version'' True l =
           (case match_field ''version'' l of Some (g, v, r) \<Rightarrow> Some v | None \<Rightarrow> None)"
  using assms
  by (cases "match_field ''version'' l")
     (auto simp: search_from_None search_from_Some search_from_last_line)

lemma search_one_line:
  assumes "nl \<notin> set l"
    and "match_update (l @ nl # x) \<noteq> None \<longrightarrow>
           match_update l \<noteq> None \<or> dropWhile is_space l = []"
  shows "search_from ''version'' True (l @ nl # x) =
           (case match_field ''version'' l of
              Some (g, v, r) \<Rightarrow> Some v
            | None \<Rightarrow> search_from ''version'' True x)"
proof (cases "match_field ''version'' l")
  case (Some m)
  obtain g v r where m: "m = (g, v, r)" by (cases m)
  have "match_field ''version'' (l @ nl # x) = Some (g, v, r @ nl # x)"
    using Some m match_field_append by simp
  then show ?thesis using Some m by (simp add: search_from_Some)
next
  case None
  have "match_field ''version'' (l @ nl # x) = None"
  proof (rule ccontr)
    assume "match_field ''version'' (l @ nl # x) \<noteq> None"
    then obtain g v r where f: "match_field ''version'' (l @ nl # x) = Some (g, v, r)"
      by auto
    then have u: "match_update (l @ nl # x) = Some (g, v, r)"
      by (rule match_field_version_update)
    from f obtain r' where "match_lit ''version'' (l @ nl # x) = Some r'"
      unfolding match_field_def by (auto split: option.splits)
    then obtain cs where "l @ nl # x = CHR ''v'' # cs" using match_lit_version_head by blast
    then obtain cs' where l: "l = CHR ''v'' # cs'" by (cases l) auto
    then have d: "dropWhile is_space l = l" "takeWhile is_space l = []"
      by (simp_all add: not_space_v)
    have "match_update l = None" using None d by (simp add: match_update_def)
    with u assms(2) d l show False by simp
  qed
  then show ?thesis
    using None assms(1) by (simp add: search_from_None search_from_line)
qed

lemma search_lines:
  "fields_within_lines ls \<Longrightarrow> search_from ''version'' True (join [nl] ls) = Some x \<Longrightarrow>
   \<exists>l \<in> set ls. \<exists>g r. match_update l = Some (g, x, r)"
proof (induction "[nl]" ls rule: join.induct)
  case 1
  then show ?case by simp
next
  case (2 l)
  then show ?case
    by (auto simp: search_last split: option.splits dest: match_field_version_update)
next
  case (3 l y ys)
  have a: "nl \<notin> set l"
    and b: "match_update (l @ nl # join [nl] (y # ys)) \<noteq> None \<longrightarrow>
              match_update l \<noteq> None \<or> dropWhile is_space l = []"
    and c: "fields_within_lines (y # ys)"
    using 3(2) by simp_all
  show ?case
  proof (cases "match_field ''version'' l")
    case None
    then have "search_from ''version'' True (join [nl] (y # ys)) = Some x"
      using 3(3) by (simp add: search_one_line [OF a b])
    from 3(1) [OF c this] show ?thesis by auto
  next
    case (Some m)
    obtain g v r where m: "m = (g, v, r)" by (cases m)
    have "v = x" using 3(3) Some m by (simp add: search_one_line [OF a b])
    then have "match_update l = Some (g, x, r)"
      using Some m match_field_version_update by simp
    then show ?thesis by auto
  qed
qed

lemma first_split_unique:
  "x \<notin> set a \<Longrightarrow> x \<notin> set b \<Longrightarrow> a @ x # r1 = b @ x # r2 \<Longrightarrow> a = b"
proof (induction a arbitrary: b)
  case Nil
  then show ?case by (cases b) auto
next
  case (Cons c a)
  then show ?case by (cases b) auto
qed

lemma sub_line_same:
  assumes "dquote \<notin> set v" and "sub_line v l @ a = l @ b"
  shows "sub_line v l = l"
proof (cases "match_update l")
  case None
  then show ?thesis by (simp add: sub_line_def)
next
  case (Some m)
  obtain g old r where m: "m = (g, old, r)" by (cases m)
  have d: "l = g @ old @ dquote # r" and o: "dquote \<notin> set old"
    using match_update_decomp [of l g old r] Some m by simp_all
  have n: "sub_line v l = g @ v @ dquote # r" by (simp add: sub_line_def Some m)
  have "(g @ v @ dquote # r) @ a = (g @ old @ dquote # r) @ b"
    using assms(2) n d by metis
  then have "v @ dquote # (r @ a) = old @ dquote # (r @ b)" by simp
  then have "v = old" using assms(1) o by (rule first_split_unique [rotated 2])
  then have "sub_line v l = g @ old @ dquote # r" using n by simp
  also have "\<dots> = l" using d by (rule sym)
  finally show ?thesis .
qed

lemma join_sub_line_same:
  "dquote \<notin> set v \<Longrightarrow> join [nl] (map (sub_line v) ls) = join [nl] ls \<Longrightarrow>
   \<forall>l \<in> set ls. sub_line v l = l"
proof (induction "[nl]" ls rule: join.induct)
  case 1
  show ?case by simp
next
  case (2 l)
  then show ?case by simp
next
  case (3 l y ys)
  have e: "sub_line v l @ (nl # join [nl] (map (sub_line v) (y # ys))) = l @ (nl # join [nl] (y # ys))"
    using 3(3) by simp
  have s: "sub_line v l = l" using sub_line_same [OF 3(2) e] .
  with e have "join [nl] (map (sub_line v) (y # ys)) = join [nl] (y # ys)" by simp
  from 3(1) [OF 3(2) this] s show ?case by simp
qed

lemma quotes_join: "quotes (join [nl] ls) = sum_list (map quotes ls)"
  by (induction "[nl]" ls rule: join.induct) (simp_all add: quotes_def)

lemma quotes_sub_line:
  "quotes (sub_line v l) = quotes l + (if match_update l = None then 0 else quotes v)"
proof (cases "match_update l")
  case None
  then show ?thesis by (simp add: sub_line_def)
next
  case (Some m)
  obtain g old r where m: "m = (g, old, r)" by (cases m)
  have d: "l = g @ old @ dquote # r" and o: "dquote \<notin> set old"
    using match_update_decomp [of l g old r] Some m by simp_all
  have "quotes old = 0" using o by (auto simp: quotes_def filter_empty_conv)
  moreover have "quotes l = quotes g + quotes old + 1 + quotes r"
    by (subst d) (simp add: quotes_def)
  moreover have "quotes (sub_line v l) = quotes g + quotes v + 1 + quotes r"
    by (simp add: sub_line_def Some m quotes_def)
  ultimately show ?thesis using Some by simp
qed

lemma sum_quotes_sub_line:
  "sum_list (map quotes (map (sub_line v) ls)) =
   sum_list (map quotes ls) + length (filter (\<lambda>l. match_update l \<noteq> None) ls) * quotes v"
  by (induction ls) (simp_all add: quotes_sub_line)

lemma sub_lines_changed:
  assumes "l \<in> set ls" and "match_update l = Some (g, x, r)" and "x \<noteq> v"
  shows "join [nl] (map (sub_line v) ls) \<noteq> join [nl] ls"
proof
  assume e: "join [nl] (map (sub_line v) ls) = join [nl] ls"
  have f: "filter (\<lambda>l. match_update l \<noteq> None) ls \<noteq> []"
    using assms(1,2) by (auto simp: filter_empty_conv)
  have "quotes (join [nl] (map (sub_line v) ls)) = quotes (join [nl] ls)" using e by simp
  then have "sum_list (map quotes (map (sub_line v) ls)) = sum_list (map quotes ls)"
    by (simp only: quotes_join)
  then have "length (filter (\<lambda>l. match_update l \<noteq> None) ls) * quotes v = 0"
    unfolding sum_quotes_sub_line by simp
  then have "quotes v = 0" using f by simp
  then have q: "dquote \<notin> set v" by (auto simp: quotes_def filter_empty_conv)
  have "sub_line v l = l" using join_sub_line_same [OF q e] assms(1) by blast
  moreover have "l = g @ x @ dquote # r" using match_update_decomp [OF assms(2)] by simp
  moreover have "sub_line v l = g @ v @ dquote # r" by (simp add: sub_line_def assms(2))
  ultimately have "g @ v @ dquote # r = g @ x @ dquote # r" by simp
  then show False using assms(3) by simp
qed



lemma map_of_read_text:
  "map_of t p = Some (File None c we) \<Longrightarrow> read_text root t p = Inr (universal_newlines c)"
  by (simp add: read_text_def)

text \<open>
  Let the root \<^verbatim>\<open>alire.toml\<close> be readable and writable, with every version field within one
  line, let the search not find the target version, let some version line hold another
  value, and let the target have no backslash. Then \<open>update_version\<close> returns \<open>True\<close> and
  writes the file once: every line that starts with a version field, indented or not, has
  the value of that field replaced by the target, every other line is as \<^verbatim>\<open>read_text\<close> gave
  it, and the lines are written with a line feed between them, whatever line ends the file
  had.
\<close>

lemma update_version_lines:
  assumes "stat_error a [''alire.toml''] = None"
    and "map_of (files w) [''alire.toml''] = Some (File None c None)"
    and "universal_newlines c = join [nl] ls"
    and "fields_within_lines ls"
    and "re_search ''version'' (join [nl] ls) \<noteq> Some (version cfg)"
    and "l \<in> set ls" and "match_update l = Some (g, x, r')" and "x \<noteq> version cfg"
    and "backslash \<notin> set (version cfg)"
  shows "update_version esc a cfg w =
           Inr (True,
            w\<lparr>files := AList.update [''alire.toml'']
                         (File None (join [nl] (map (sub_line (version cfg)) ls)) None) (files w),
              out := out w @ [''  Updated root alire.toml: version = '' @ [dquote]
                                @ version cfg @ [dquote]]\<rparr>)"
proof -
  have e: "path_exists a (files w) [''alire.toml''] = Inr True"
    using assms(1,2) by (simp add: path_exists_def exists_def)
  have r: "read_text (project_root cfg) (files w) [''alire.toml''] = Inr (join [nl] ls)"
    using map_of_read_text [OF assms(2)] assms(3) by simp
  have s: "re_sub esc (version cfg) (join [nl] ls) =
             Inr (join [nl] (map (sub_line (version cfg)) ls))"
    using assms(9) by (simp add: re_sub_def version_template_def sub_from_lines [OF assms(4)])
  have n: "join [nl] (map (sub_line (version cfg)) ls) \<noteq> join [nl] ls"
    using assms(6,7,8) by (rule sub_lines_changed)
  have wr: "write_text (project_root cfg) (files w) [''alire.toml'']
              (join [nl] (map (sub_line (version cfg)) ls)) =
              Inr (AList.update [''alire.toml'']
                     (File None (join [nl] (map (sub_line (version cfg)) ls)) None) (files w))"
    using assms(2) by (simp add: write_text_def)
  show ?thesis
    using e r s n wr assms(5)
    by (simp add: update_version_def update_version_try_def print_def)
qed

lemma update_version_lines_example:
  "update_version (\<lambda>v. Inl ''bad escape'') full_access
     \<lparr>project_root = \<lparr>anchor = ''/'', names = [''home'', ''demo'']\<rparr>, version = ''0.2.0'',
      project_name = ''demo''\<rparr>
     \<lparr>files = [([''alire.toml''],
                 File None
                   (join [nl] [''  version = '' @ [dquote] @ ''0.1.0'' @ [dquote], [],
                               ''version = '' @ [dquote] @ ''7'' @ [dquote] @ '' # x'',
                               ''versions = 3'']) None)],
      out = [], calls = []\<rparr>
   = Inr (True,
      \<lparr>files = [([''alire.toml''],
                  File None
                    (join [nl] [''  version = '' @ [dquote] @ ''0.2.0'' @ [dquote], [],
                               ''version = '' @ [dquote] @ ''0.2.0'' @ [dquote] @ '' # x'',
                               ''versions = 3'']) None)],
       out = [''  Updated root alire.toml: version = '' @ [dquote] @ ''0.2.0'' @ [dquote]],
       calls = []\<rparr>)"
proof -
  let ?ls = "[''  version = '' @ [dquote] @ ''0.1.0'' @ [dquote], [],
              ''version = '' @ [dquote] @ ''7'' @ [dquote] @ '' # x'', ''versions = 3'']"
  let ?w = "\<lparr>files = [([''alire.toml''], File None (join [nl] ?ls) None)], out = [], calls = []\<rparr>"
  let ?cfg = "\<lparr>project_root = \<lparr>anchor = ''/'', names = [''home'', ''demo'']\<rparr>, version = ''0.2.0'',
      project_name = ''demo''\<rparr>"
  have st: "stat_error full_access [''alire.toml''] = None" by (simp add: full_access_def)
  have a: "map_of (files ?w) [''alire.toml''] = Some (File None (join [nl] ?ls) None)" by simp
  have u: "universal_newlines (join [nl] ?ls) = join [nl] ?ls" by simp
  have b: "fields_within_lines ?ls"
    by (simp add: match_update_def match_field_def is_space_def)
  have "re_search ''version'' (join [nl] ?ls) = Some ''7''"
    by (simp add: re_search_def match_field_def is_space_def)
  then have c: "re_search ''version'' (join [nl] ?ls) \<noteq> Some (version ?cfg)" by simp
  have l: "''  version = '' @ [dquote] @ ''0.1.0'' @ [dquote] \<in> set ?ls" by simp
  have m: "match_update (''  version = '' @ [dquote] @ ''0.1.0'' @ [dquote])
             = Some (''  version = '' @ [dquote], ''0.1.0'', [])"
    by (simp add: match_update_def match_field_def is_space_def)
  have d: "''0.1.0'' \<noteq> version ?cfg" by simp
  have e: "backslash \<notin> set (version ?cfg)" by simp
  have f: "map (sub_line ''0.2.0'') ?ls =
             [''  version = '' @ [dquote] @ ''0.2.0'' @ [dquote], [],
              ''version = '' @ [dquote] @ ''0.2.0'' @ [dquote] @ '' # x'', ''versions = 3'']"
    by (simp add: sub_line_def match_update_def match_field_def is_space_def)
  show ?thesis
    using update_version_lines [OF st a u b c l m d e, of "\<lambda>v. Inl ''bad escape''"] f
    by simp
qed

text \<open>
  Claim C1. \<^verbatim>\<open>re.sub\<close> in lines 136 to 141 is called without \<^verbatim>\<open>count\<close>, so it replaces every
  match and not only the field that the search of lines 122 to 126 found. In a file with
  a second line that holds a version field (here the one of the table \<^verbatim>\<open>[tool]\<close>),
  \<open>update_version\<close> rewrites that line as well and returns \<open>True\<close>: a line other than the
  version field of the project is not what it was.
\<close>

theorem update_version_rewrites_second_field:
  "update_version esc full_access
     \<lparr>project_root = \<lparr>anchor = ''/'', names = [''home'', ''demo'']\<rparr>, version = ''0.2.0'',
      project_name = ''demo''\<rparr>
     \<lparr>files = [([''alire.toml''],
                 File None
                   (join [nl] [''name = '' @ [dquote] @ ''demo'' @ [dquote],
                               ''version = '' @ [dquote] @ ''0.1.0'' @ [dquote],
                               ''[tool]'',
                               ''version = '' @ [dquote] @ ''9.9.9'' @ [dquote]]) None)],
      out = [], calls = []\<rparr>
   = Inr (True,
      \<lparr>files = [([''alire.toml''],
                  File None
                    (join [nl] [''name = '' @ [dquote] @ ''demo'' @ [dquote],
                                ''version = '' @ [dquote] @ ''0.2.0'' @ [dquote],
                                ''[tool]'',
                                ''version = '' @ [dquote] @ ''0.2.0'' @ [dquote]]) None)],
       out = [''  Updated root alire.toml: version = '' @ [dquote] @ ''0.2.0'' @ [dquote]],
       calls = []\<rparr>)"
  by (simp add: update_version_def update_version_try_def path_exists_full_access exists_def
        read_text_def write_text_def re_search_def match_field_def re_sub_def version_template_def
        match_update_def is_space_def print_def)

theorem update_version_rewrites_second_field_witness:
  "update_version (\<lambda>v. Inl ''bad escape'') full_access
     \<lparr>project_root = \<lparr>anchor = ''/'', names = [''home'', ''demo'']\<rparr>, version = ''0.2.0'',
      project_name = ''demo''\<rparr>
     \<lparr>files = [([''alire.toml''],
                 File None
                   (join [nl] [''name = '' @ [dquote] @ ''demo'' @ [dquote],
                               ''version = '' @ [dquote] @ ''0.1.0'' @ [dquote],
                               ''[tool]'',
                               ''version = '' @ [dquote] @ ''9.9.9'' @ [dquote]]) None)],
      out = [], calls = []\<rparr>
   \<noteq> Inr (True,
      \<lparr>files = [([''alire.toml''],
                  File None
                    (join [nl] [''name = '' @ [dquote] @ ''demo'' @ [dquote],
                                ''version = '' @ [dquote] @ ''0.2.0'' @ [dquote],
                                ''[tool]'',
                                ''version = '' @ [dquote] @ ''9.9.9'' @ [dquote]]) None)],
       out = [''  Updated root alire.toml: version = '' @ [dquote] @ ''0.2.0'' @ [dquote]],
       calls = []\<rparr>)"
  using update_version_rewrites_second_field [of "\<lambda>v. Inl ''bad escape''"] by simp

text \<open>
  The lines that hold no version field are not kept byte for byte either: \<^verbatim>\<open>read_text\<close>
  turns each carriage return with line feed into a line feed, and \<^verbatim>\<open>write_text\<close> writes what
  it is given. A file with such line ends comes out with line feeds on every line.
\<close>

lemma update_version_crlf:
  "update_version esc full_access
     \<lparr>project_root = \<lparr>anchor = ''/'', names = [''home'', ''demo'']\<rparr>, version = ''0.2.0'',
      project_name = ''demo''\<rparr>
     \<lparr>files = [([''alire.toml''],
                 File None
                   (''name = '' @ [dquote] @ ''demo'' @ [dquote, cr, nl] @
                    ''version = '' @ [dquote] @ ''0.1.0'' @ [dquote, cr, nl]) None)],
      out = [], calls = []\<rparr>
   = Inr (True,
      \<lparr>files = [([''alire.toml''],
                  File None
                    (''name = '' @ [dquote] @ ''demo'' @ [dquote, nl] @
                     ''version = '' @ [dquote] @ ''0.2.0'' @ [dquote, nl]) None)],
       out = [''  Updated root alire.toml: version = '' @ [dquote] @ ''0.2.0'' @ [dquote]],
       calls = []\<rparr>)"
  by (simp add: update_version_def update_version_try_def path_exists_full_access exists_def
        read_text_def write_text_def re_search_def match_field_def re_sub_def version_template_def
        match_update_def is_space_def print_def)

subsection \<open>sync_versions without the script\<close>

























text \<open>
  What the attempt on one file raises: the exception of \<^verbatim>\<open>read_text\<close>, that of an entry that
  is a directory, the \<^verbatim>\<open>re.error\<close> of the template, and the exception of \<^verbatim>\<open>write_text\<close>, after
  which the file holds what the failed write left of it.
\<close>

lemma sync_file_try_read_error:
  "map_of (files w) p = Some (File (Some e) c we) \<Longrightarrow> sync_file_try esc cfg p w = Inl (e, w)"
  by (simp add: sync_file_try_def read_text_def)

lemma sync_file_try_directory:
  "map_of (files w) p = Some Dir \<Longrightarrow>
   sync_file_try esc cfg p w = Inl (os_error ''[Errno 21] Is a directory'' (project_root cfg) p, w)"
  by (simp add: sync_file_try_def read_text_def)

lemma sync_file_try_template_error:
  "map_of (files w) p = Some (File None c we) \<Longrightarrow>
   re_sub esc (version cfg) (universal_newlines c) = Inl e \<Longrightarrow>
   sync_file_try esc cfg p w = Inl (e, w)"
  by (simp add: sync_file_try_def read_text_def)

lemma sync_file_try_write_error:
  "map_of (files w) p = Some (File None c (Some (e, left))) \<Longrightarrow>
   re_sub esc (version cfg) (universal_newlines c) = Inr c' \<Longrightarrow> c' \<noteq> universal_newlines c \<Longrightarrow>
   sync_file_try esc cfg p w =
     Inl (e, w\<lparr>files := AList.update p (File None left (Some (e, left))) (files w)\<rparr>)"
  by (simp add: sync_file_try_def read_text_def write_text_def)

text \<open>
  The two calls of \<^verbatim>\<open>sync_script.exists()\<close> stand outside every \<^verbatim>\<open>try\<close>: what \<^verbatim>\<open>stat\<close> raises
  on the first place of the script leaves the method.
\<close>

lemma sync_versions_stat_raises:
  "stat_error a [''scripts'', ''release'', ''sync_versions.py''] = Some m \<Longrightarrow>
   sync_versions rc exe esc a cfg w =
     Inl (PermissionError m,
          w\<lparr>out := out w @ [''Syncing versions across all layer alire.toml files...'']\<rparr>)"
  by (simp add: sync_versions_def print_def Let_def path_exists_def)





end
